theory Spec2Isabelle
  imports Main
begin

text \<open>
  A model of the logging core of zap as src/logger.go has it, with the two facilities
  that go with it: the spy facility of src/spy/logger.go and the writer facility of the
  second facility file of \<^verbatim>\<open>src/unnamed/part_000\<close> (the one whose constructors
  \<^verbatim>\<open>WriterFacility(enc, w)\<close> and \<^verbatim>\<open>newIOFacility(enc, out)\<close> are those
  \<^verbatim>\<open>New\<close> calls). The first facility file of \<^verbatim>\<open>part_000\<close> and the logger of
  \<^verbatim>\<open>src/unnamed/part_001\<close> are earlier drafts that refer to names no file declares.
  Calls run one at a time: the locks of the sinks are not modelled.
\<close>

section \<open>Severities and thresholds\<close>

datatype Level =
  DebugLevel | InfoLevel | WarnLevel | ErrorLevel | DPanicLevel | PanicLevel | FatalLevel

text \<open>
  Modelled from the spec: level.go (the declaration of Level and of its constants) is
  not among the sources. The spec gives the severities as the totally ordered
  enumeration Debug, Info, Warn, Error, DPanic, Panic, Fatal; \<open>Level_int\<close> is the
  position the Go comparison \<^verbatim>\<open>ent.Level > ErrorLevel\<close> compares.
\<close>

fun Level_int :: "Level \<Rightarrow> int" where
  "Level_int DebugLevel = -1"
| "Level_int InfoLevel = 0"
| "Level_int WarnLevel = 1"
| "Level_int ErrorLevel = 2"
| "Level_int DPanicLevel = 3"
| "Level_int PanicLevel = 4"
| "Level_int FatalLevel = 5"

text \<open>
  Modelled from the spec: the method Enabled of a fixed Level used as a LevelEnabler
  (level.go is missing): "a fixed threshold returns true iff severity >= threshold".
\<close>

definition Level_Enabled :: "Level \<Rightarrow> Level \<Rightarrow> bool" where
  "Level_Enabled l lvl = (Level_int l \<le> Level_int lvl)"

section \<open>Values the core passes around\<close>

text \<open>
  Modelled from the spec: Field is declared outside the sources; the core treats a field
  as an opaque key/value pair and only ever handles ordered sequences of them.
\<close>

datatype Field = Field string string

text \<open>
  A \<^verbatim>\<open>time.Time\<close> and an \<^verbatim>\<open>error\<close> are kept as the text that the verb
  \<^verbatim>\<open>%v\<close> prints for them, which is all the code below does with them.
\<close>

type_synonym time = string
type_synonym error = string
type_synonym addr = nat

text \<open>What a WriteSyncer has been asked to do, oldest call first.\<close>

datatype sink_op = Write string | Sync

text \<open>The struct \<^verbatim>\<open>spy.Log\<close>.\<close>

record Log =
  Log_Level :: Level
  Msg :: string
  Fields :: "Field list"

section \<open>The state outside the values\<close>

text \<open>
  Everything the code reads or mutates through a pointer:
  \<^item> \<open>clock\<close> and \<open>ticks\<close>: the successive readings of \<^verbatim>\<open>time.Now().UTC()\<close>
    and how many have been taken;
  \<^item> \<open>arrays\<close>: the backing arrays of the \<^verbatim>\<open>[]zap.Field\<close> slices, by address; the
    length of the list is the capacity of the array; \<open>next_array\<close> is the next
    address the allocator hands out and \<open>growslice\<close> the capacity the runtime picks
    when \<^verbatim>\<open>append\<close> has to reallocate (given the old capacity and the length needed);
  \<^item> \<open>sinks\<close>: the field \<^verbatim>\<open>logs\<close> of every \<^verbatim>\<open>spy.Sink\<close>, by address;
  \<^item> \<open>writers\<close>: the calls every WriteSyncer has received, by address.
\<close>

record world =
  clock :: "nat \<Rightarrow> time"
  ticks :: nat
  arrays :: "addr \<Rightarrow> Field list"
  next_array :: addr
  growslice :: "nat \<Rightarrow> nat \<Rightarrow> nat"
  sinks :: "addr \<Rightarrow> Log list"
  writers :: "addr \<Rightarrow> sink_op list"

definition time_Now :: "world \<Rightarrow> time \<times> world" where
  "time_Now w = (clock w (ticks w), w\<lparr>ticks := Suc (ticks w)\<rparr>)"

definition WriteSyncer_Write :: "addr \<Rightarrow> string \<Rightarrow> world \<Rightarrow> world" where
  "WriteSyncer_Write out bs w = w\<lparr>writers := (writers w)(out := writers w out @ [Write bs])\<rparr>"

definition WriteSyncer_Sync :: "addr \<Rightarrow> world \<Rightarrow> world" where
  "WriteSyncer_Sync out w = w\<lparr>writers := (writers w)(out := writers w out @ [Sync])\<rparr>"

subsection \<open>Go slices of fields\<close>

text \<open>
  A slice is a pointer to a backing array, a length and a capacity. The nil slice has
  length and capacity 0 and is never read or written through.
\<close>

record slice =
  arr :: addr
  len :: nat
  cap :: nat

definition nil_slice :: slice where
  "nil_slice = \<lparr>arr = 0, len = 0, cap = 0\<rparr>"

definition zero_Field :: Field where
  "zero_Field = Field [] []"

definition slice_elems :: "world \<Rightarrow> slice \<Rightarrow> Field list" where
  "slice_elems w s = take (len s) (arrays w (arr s))"

text \<open>\<^verbatim>\<open>make([]zap.Field, 0, n)\<close>: a fresh array of n zero values, seen through length 0.\<close>

definition make_slice :: "nat \<Rightarrow> world \<Rightarrow> slice \<times> world" where
  "make_slice n w =
     (\<lparr>arr = next_array w, len = 0, cap = n\<rparr>,
      w\<lparr>arrays := (arrays w)(next_array w := replicate n zero_Field),
        next_array := Suc (next_array w)\<rparr>)"

text \<open>
  \<^verbatim>\<open>append(s, xs...)\<close>: when the capacity of s suffices, the new elements are written
  into the backing array of s, behind its length, and the result shares that array;
  otherwise a new, sufficiently large array is allocated and the elements are copied.
\<close>

definition append_slice :: "slice \<Rightarrow> Field list \<Rightarrow> world \<Rightarrow> slice \<times> world" where
  "append_slice s xs w =
     (let n = len s + length xs in
      if n \<le> cap s then
        (s\<lparr>len := n\<rparr>,
         w\<lparr>arrays := (arrays w)(arr s :=
              take (len s) (arrays w (arr s)) @ xs @ drop n (arrays w (arr s)))\<rparr>)
      else
        (let c = max n (growslice w (cap s) n) in
         (\<lparr>arr = next_array w, len = n, cap = c\<rparr>,
          w\<lparr>arrays := (arrays w)(next_array w :=
               slice_elems w s @ xs @ replicate (c - n) zero_Field),
            next_array := Suc (next_array w)\<rparr>)))"

text \<open>
  A slice the program can hold in state w: its backing array has been allocated and is
  as long as the capacity, which bounds the length. The nil slice qualifies.
\<close>

definition slice_ok :: "world \<Rightarrow> slice \<Rightarrow> bool" where
  "slice_ok w s =
     (len s \<le> cap s \<and> (cap s = 0 \<or> (arr s < next_array w \<and> length (arrays w (arr s)) = cap s)))"

section \<open>Entries and facilities\<close>

text \<open>The exported fields of the struct Entry.\<close>

record Entry_pub =
  Level :: Level
  Time :: time
  Message :: string

text \<open>
  The interface Facility (With, Enabled, Log) as the value that carries the three
  methods of some implementation. With may allocate, Log writes, so both pass the state
  on. The methods get the exported fields of the entry: the field \<^verbatim>\<open>fac\<close> is
  unexported, neither implementation in the sources reads it, and a type of HOL cannot
  hold functions that take the type itself as an argument.
\<close>

codatatype Facility = MkFacility
  (fac_With: "Field list \<Rightarrow> world \<Rightarrow> Facility \<times> world")
  (fac_Enabled: "Entry_pub \<Rightarrow> bool")
  (fac_Log: "Entry_pub \<Rightarrow> Field list \<Rightarrow> world \<Rightarrow> world")

text \<open>The struct Entry: the exported fields and the facility it is bound to (nil: None).\<close>

record Entry = Entry_pub +
  fac :: "Facility option"

definition exported :: "Entry \<Rightarrow> Entry_pub" where
  "exported ent = \<lparr>Level = Level ent, Time = Time ent, Message = Message ent\<rparr>"

section \<open>Package spy (src/spy/logger.go)\<close>

definition Sink_WriteLog :: "addr \<Rightarrow> Level \<Rightarrow> string \<Rightarrow> Field list \<Rightarrow> world \<Rightarrow> world" where
  "Sink_WriteLog s lvl msg flds w =
     w\<lparr>sinks := (sinks w)(s := sinks w s @ [\<lparr>Log_Level = lvl, Msg = msg, Fields = flds\<rparr>])\<rparr>"

definition Sink_Logs :: "addr \<Rightarrow> world \<Rightarrow> Log list" where
  "Sink_Logs s w = [] @ sinks w s"

record spyFacility =
  sf_sink :: addr
  sf_context :: slice

definition spyFacility_With :: "spyFacility \<Rightarrow> Field list \<Rightarrow> world \<Rightarrow> spyFacility \<times> world" where
  "spyFacility_With sf flds w =
     (let (c, w') = append_slice (sf_context sf) flds w
      in (\<lparr>sf_sink = sf_sink sf, sf_context = c\<rparr>, w'))"

definition spyFacility_Enabled :: "spyFacility \<Rightarrow> Entry_pub \<Rightarrow> bool" where
  "spyFacility_Enabled sf ent = True"

text \<open>
  The slice \<^verbatim>\<open>all\<close> is made by the call and reachable from the recorded Log only,
  so the Log keeps its elements.
\<close>

definition spyFacility_Log :: "spyFacility \<Rightarrow> Entry_pub \<Rightarrow> Field list \<Rightarrow> world \<Rightarrow> world" where
  "spyFacility_Log sf ent flds w =
     (let (all0, w0) = make_slice (length flds + len (sf_context sf)) w;
          (all1, w1) = append_slice all0 (slice_elems w0 (sf_context sf)) w0;
          (all2, w2) = append_slice all1 flds w1
      in Sink_WriteLog (sf_sink sf) (Level ent) (Message ent) (slice_elems w2 all2) w2)"

text \<open>A \<^verbatim>\<open>*spyFacility\<close> used as a \<^verbatim>\<open>zap.Facility\<close>.\<close>

primcorec spy_Facility :: "spyFacility \<Rightarrow> Facility" where
  "fac_With (spy_Facility sf) = (\<lambda>flds w. map_prod spy_Facility id (spyFacility_With sf flds w))"
| "fac_Enabled (spy_Facility sf) = spyFacility_Enabled sf"
| "fac_Log (spy_Facility sf) = spyFacility_Log sf"

section \<open>The writer facility (second facility file of \<^verbatim>\<open>src/unnamed/part_000\<close>)\<close>

text \<open>
  Modelled from the spec: the interface Encoder is declared outside the sources. The
  spec lists its operations: clone, addFields, writeEntry(sink, message, severity, time)
  returning an error, and free. An encoder is the context it has accumulated and what
  its writeEntry does with a context and an entry: the chunks it hands to the sink's
  Write, in order, and the error it returns. Clone yields an independent copy and Free
  releases pooled memory, which no result depends on.
\<close>

record Encoder =
  enc_fields :: "Field list"
  enc_entry :: "Field list \<Rightarrow> string \<Rightarrow> Level \<Rightarrow> time \<Rightarrow> string list \<times> error option"

definition Encoder_Clone :: "Encoder \<Rightarrow> Encoder" where
  "Encoder_Clone enc = enc"

definition addFields :: "Encoder \<Rightarrow> Field list \<Rightarrow> Encoder" where
  "addFields enc flds = enc\<lparr>enc_fields := enc_fields enc @ flds\<rparr>"

definition Encoder_WriteEntry ::
  "Encoder \<Rightarrow> addr \<Rightarrow> string \<Rightarrow> Level \<Rightarrow> time \<Rightarrow> world \<Rightarrow> error option \<times> world" where
  "Encoder_WriteEntry enc out msg lvl t w =
     (let (chunks, err) = enc_entry enc (enc_fields enc) msg lvl t
      in (err, foldl (\<lambda>w' c. WriteSyncer_Write out c w') w chunks))"

record ioFacility =
  Encoder :: Encoder
  Output :: addr

definition ioFacility_With :: "ioFacility \<Rightarrow> Field list \<Rightarrow> ioFacility" where
  "ioFacility_With iof flds =
     (let enc = addFields (Encoder_Clone (Encoder iof)) flds
      in \<lparr>Encoder = enc, Output = Output iof\<rparr>)"

definition ioFacility_Enabled :: "ioFacility \<Rightarrow> Entry_pub \<Rightarrow> bool" where
  "ioFacility_Enabled iof ent = True"

text \<open>
  The error of WriteEntry is dropped: the body of the \<^verbatim>\<open>if err != nil\<close> holds only
  the comment "TODO: restore internal error reporting" and the call it comments out.
\<close>

definition ioFacility_Log :: "ioFacility \<Rightarrow> Entry_pub \<Rightarrow> Field list \<Rightarrow> world \<Rightarrow> world" where
  "ioFacility_Log iof ent flds w =
     (let enc = addFields (Encoder_Clone (Encoder iof)) flds;
          (err, w1) = Encoder_WriteEntry enc (Output iof) (Message ent) (Level ent) (Time ent) w;
          w2 = (case err of None \<Rightarrow> w1 | Some e \<Rightarrow> w1)
      in if Level_int (Level ent) > Level_int ErrorLevel
         then WriteSyncer_Sync (Output iof) w2
         else w2)"

text \<open>A \<^verbatim>\<open>*ioFacility\<close> used as a Facility.\<close>

primcorec io_Facility :: "ioFacility \<Rightarrow> Facility" where
  "fac_With (io_Facility iof) = (\<lambda>flds w. (io_Facility (ioFacility_With iof flds), w))"
| "fac_Enabled (io_Facility iof) = ioFacility_Enabled iof"
| "fac_Log (io_Facility iof) = ioFacility_Log iof"

section \<open>The logger (src/logger.go)\<close>

text \<open>
  A hook gets a pointer to the entry and returns an error or nil: it yields the error
  and the entry as it leaves it. A hook touches nothing else (the spec calls it a pure
  capability).
\<close>

type_synonym Hook = "Entry \<Rightarrow> error option \<times> Entry"

record Logger =
  LevelEnabler :: "Level \<Rightarrow> bool"
  Facility :: Facility
  Development :: bool
  Hooks :: "Hook list"
  ErrorOutput :: addr

text \<open>How a logging call ends: it returns, panics with a value, or exits the process.\<close>

datatype outcome = Returns | Panics string | Exits int

definition InternalError :: "Logger \<Rightarrow> string \<Rightarrow> error \<Rightarrow> world \<Rightarrow> world" where
  "InternalError log cause err w =
     (let (t, w1) = time_Now w;
          w2 = WriteSyncer_Write (ErrorOutput log)
                 (t @ '' '' @ cause @ '' error: '' @ err @ ''\<newline>'') w1
      in WriteSyncer_Sync (ErrorOutput log) w2)"

definition Logger_With :: "Logger \<Rightarrow> Field list \<Rightarrow> world \<Rightarrow> Logger \<times> world" where
  "Logger_With log flds w =
     (let (f, w') = fac_With (Facility log) flds w
      in (\<lparr>LevelEnabler = LevelEnabler log,
           Facility = f,
           Development = Development log,
           Hooks = Hooks log,
           ErrorOutput = ErrorOutput log\<rparr>, w'))"

definition Check :: "Logger \<Rightarrow> Level \<Rightarrow> string \<Rightarrow> world \<Rightarrow> Entry option \<times> world" where
  "Check log lvl msg w =
     (let (t, w1) = time_Now w;
          ent = \<lparr>Level = lvl, Time = t, Message = msg, fac = None\<rparr>;
          bound = Some (ent\<lparr>fac := Some (Facility log)\<rparr>)
      in if lvl = PanicLevel \<or> lvl = FatalLevel then (bound, w1)
         else if lvl = DPanicLevel \<and> Development log then (bound, w1)
         else if \<not> LevelEnabler log lvl then (None, w1)
         else if \<not> fac_Enabled (Facility log) (exported ent) then (None, w1)
         else (bound, w1))"

text \<open>The loop over \<^verbatim>\<open>log.Hooks\<close> in Log.\<close>

fun run_hooks :: "Logger \<Rightarrow> Hook list \<Rightarrow> Entry \<Rightarrow> world \<Rightarrow> Entry \<times> world" where
  "run_hooks log [] ent w = (ent, w)"
| "run_hooks log (hook # hooks) ent w =
     (case hook ent of
        (None, ent') \<Rightarrow> run_hooks log hooks ent' w
      | (Some err, ent') \<Rightarrow> run_hooks log hooks ent' (InternalError log ''hook'' err w))"

definition Logger_Log :: "Logger \<Rightarrow> Entry \<Rightarrow> Field list \<Rightarrow> world \<Rightarrow> world" where
  "Logger_Log log ent flds w =
     (if \<not> LevelEnabler log (Level ent) then w
      else if \<not> fac_Enabled (Facility log) (exported ent) then w
      else (let ent1 = ent\<lparr>fac := Some (Facility log)\<rparr>;
                (ent2, w2) = run_hooks log (Hooks log) ent1 w
            in fac_Log (Facility log) (exported ent2) flds w2))"

definition Logger_log :: "Logger \<Rightarrow> Level \<Rightarrow> string \<Rightarrow> Field list \<Rightarrow> world \<Rightarrow> world" where
  "Logger_log log lvl msg flds w =
     (let (t, w1) = time_Now w
      in Logger_Log log \<lparr>Level = lvl, Time = t, Message = msg, fac = None\<rparr> flds w1)"

definition Logger_Debug :: "Logger \<Rightarrow> string \<Rightarrow> Field list \<Rightarrow> world \<Rightarrow> outcome \<times> world" where
  "Logger_Debug log msg flds w = (Returns, Logger_log log DebugLevel msg flds w)"

definition Logger_Info :: "Logger \<Rightarrow> string \<Rightarrow> Field list \<Rightarrow> world \<Rightarrow> outcome \<times> world" where
  "Logger_Info log msg flds w = (Returns, Logger_log log InfoLevel msg flds w)"

definition Logger_Warn :: "Logger \<Rightarrow> string \<Rightarrow> Field list \<Rightarrow> world \<Rightarrow> outcome \<times> world" where
  "Logger_Warn log msg flds w = (Returns, Logger_log log WarnLevel msg flds w)"

definition Logger_Error :: "Logger \<Rightarrow> string \<Rightarrow> Field list \<Rightarrow> world \<Rightarrow> outcome \<times> world" where
  "Logger_Error log msg flds w = (Returns, Logger_log log ErrorLevel msg flds w)"

definition Logger_DPanic :: "Logger \<Rightarrow> string \<Rightarrow> Field list \<Rightarrow> world \<Rightarrow> outcome \<times> world" where
  "Logger_DPanic log msg flds w =
     (let w' = Logger_log log DPanicLevel msg flds w
      in if Development log then (Panics msg, w') else (Returns, w'))"

definition Logger_Panic :: "Logger \<Rightarrow> string \<Rightarrow> Field list \<Rightarrow> world \<Rightarrow> outcome \<times> world" where
  "Logger_Panic log msg flds w =
     (let w' = Logger_log log PanicLevel msg flds w in (Panics msg, w'))"

text \<open>\<^verbatim>\<open>_exit\<close> is \<^verbatim>\<open>os.Exit\<close>, as the package sets it.\<close>

definition Logger_Fatal :: "Logger \<Rightarrow> string \<Rightarrow> Field list \<Rightarrow> world \<Rightarrow> outcome \<times> world" where
  "Logger_Fatal log msg flds w =
     (let w' = Logger_log log FatalLevel msg flds w in (Exits 1, w'))"

section \<open>What the properties are stated with\<close>

text \<open>
  The entry as the hooks leave it: each hook, in the order of the list, gets the entry
  the hook before it left.
\<close>

definition after_hooks :: "Hook list \<Rightarrow> Entry \<Rightarrow> Entry" where
  "after_hooks hooks ent = foldl (\<lambda>e hook. snd (hook e)) ent hooks"

text \<open>The errors of the hooks that fail on that run, in the order of the hooks.\<close>

fun hook_errors :: "Hook list \<Rightarrow> Entry \<Rightarrow> error list" where
  "hook_errors [] ent = []"
| "hook_errors (hook # hooks) ent =
     (case fst (hook ent) of None \<Rightarrow> [] | Some err \<Rightarrow> [err]) @ hook_errors hooks (snd (hook ent))"

text \<open>
  One internal-error report per error: the line with the cause "hook", stamped with the
  next reading of the clock, and the flush of the error output.
\<close>

fun hook_reports :: "(nat \<Rightarrow> time) \<Rightarrow> nat \<Rightarrow> error list \<Rightarrow> sink_op list" where
  "hook_reports clk k [] = []"
| "hook_reports clk k (err # errs) =
     [Write (clk k @ '' '' @ ''hook'' @ '' error: '' @ err @ ''\<newline>''), Sync]
       @ hook_reports clk (Suc k) errs"

subsection \<open>Concrete values\<close>

definition world0 :: world where
  "world0 =
     \<lparr>clock = (\<lambda>n. if n = 0 then ''t0'' else if n = 1 then ''t1'' else ''t2''),
      ticks = 0,
      arrays = (\<lambda>a. []),
      next_array = 1,
      growslice = (\<lambda>c n. 2 * c),
      sinks = (\<lambda>a. []),
      writers = (\<lambda>a. [])\<rparr>"

text \<open>A state with one backing array of capacity 2 that holds one context field.\<close>

definition world1 :: world where
  "world1 = world0\<lparr>arrays := (\<lambda>a. if a = 1 then [Field ''request_id'' ''abc'', zero_Field] else []),
                    next_array := 2\<rparr>"

definition ctx1 :: slice where
  "ctx1 = \<lparr>arr = 1, len = 1, cap = 2\<rparr>"

text \<open>
  A logger over a spy facility with sink 0 and no context, with a fixed threshold, the
  error output at address 2.
\<close>

definition spy_logger :: "Level \<Rightarrow> bool \<Rightarrow> Hook list \<Rightarrow> Logger" where
  "spy_logger t dev hooks =
     \<lparr>LevelEnabler = Level_Enabled t,
      Facility = spy_Facility \<lparr>sf_sink = 0, sf_context = nil_slice\<rparr>,
      Development = dev,
      Hooks = hooks,
      ErrorOutput = 2\<rparr>"

text \<open>Hooks: one that fails, one that replaces the message, one that extends it.\<close>

definition hook_fail :: Hook where
  "hook_fail = (\<lambda>e. (Some ''bad'', e))"

definition hook_rewrite :: Hook where
  "hook_rewrite = (\<lambda>e. (None, e\<lparr>Message := ''rewritten''\<rparr>))"

definition hook_mark :: Hook where
  "hook_mark = (\<lambda>e. (None, e\<lparr>Message := Message e @ ''!''\<rparr>))"

text \<open>A hook that lowers the severity of the entry to Info.\<close>

definition hook_lower :: Hook where
  "hook_lower = (\<lambda>e. (None, e\<lparr>Level := InfoLevel\<rparr>))"

text \<open>
  Encoders: one that writes the message as one chunk, one whose WriteEntry writes
  nothing and returns an error.
\<close>

definition enc_plain :: Encoder where
  "enc_plain = \<lparr>enc_fields = [], enc_entry = (\<lambda>fs msg lvl t. ([msg], None))\<rparr>"

definition enc_failing :: Encoder where
  "enc_failing = \<lparr>enc_fields = [], enc_entry = (\<lambda>fs msg lvl t. ([], Some ''disk full''))\<rparr>"

text \<open>
  A logger with the defaults of New (threshold Info, development off, no hooks) over a
  writer facility with the output at address 1 and the error output at address 2.
\<close>

definition io_logger :: "Encoder \<Rightarrow> Logger" where
  "io_logger enc =
     \<lparr>LevelEnabler = Level_Enabled InfoLevel,
      Facility = io_Facility \<lparr>Encoder = enc, Output = 1\<rparr>,
      Development = False,
      Hooks = [],
      ErrorOutput = 2\<rparr>"

section \<open>Slices: what append and make leave in place\<close>

lemma append_slice_frame:
  "sinks (snd (append_slice s xs w)) = sinks w"
  "writers (snd (append_slice s xs w)) = writers w"
  "clock (snd (append_slice s xs w)) = clock w"
  "ticks (snd (append_slice s xs w)) = ticks w"
  "growslice (snd (append_slice s xs w)) = growslice w"
  by (simp_all add: append_slice_def Let_def)

lemma make_slice_frame:
  "sinks (snd (make_slice n w)) = sinks w"
  "writers (snd (make_slice n w)) = writers w"
  "clock (snd (make_slice n w)) = clock w"
  "ticks (snd (make_slice n w)) = ticks w"
  by (simp_all add: make_slice_def)

lemma slice_elems_length: "slice_ok w s \<Longrightarrow> length (slice_elems w s) = len s"
  by (auto simp add: slice_ok_def slice_elems_def)

lemma append_slice_elems:
  assumes "slice_ok w s"
  shows "slice_elems (snd (append_slice s xs w)) (fst (append_slice s xs w)) = slice_elems w s @ xs"
  using assms by (auto simp add: append_slice_def slice_ok_def slice_elems_def Let_def)

lemma append_slice_parent:
  assumes "slice_ok w s"
  shows "slice_elems (snd (append_slice s xs w)) s = slice_elems w s"
  using assms by (auto simp add: append_slice_def slice_ok_def slice_elems_def Let_def)

lemma append_slice_ok:
  assumes "slice_ok w s"
  shows "slice_ok (snd (append_slice s xs w)) (fst (append_slice s xs w))"
proof (cases "len s + length xs \<le> cap s")
  case True
  with assms show ?thesis
    by (auto simp add: append_slice_def slice_ok_def Let_def)
next
  case False
  have "length (slice_elems w s) = len s"
    using assms by (rule slice_elems_length)
  with False show ?thesis
    by (simp add: append_slice_def slice_ok_def Let_def)
qed

lemma append_slice_parent_ok:
  assumes "slice_ok w s"
  shows "slice_ok (snd (append_slice s xs w)) s"
  using assms by (auto simp add: append_slice_def slice_ok_def Let_def)

lemma make_slice_other:
  assumes "slice_ok w t"
  shows "slice_elems (snd (make_slice n w)) t = slice_elems w t"
  using assms by (auto simp add: make_slice_def slice_ok_def slice_elems_def)

lemma make_slice_ok: "slice_ok (snd (make_slice n w)) (fst (make_slice n w))"
  by (simp add: make_slice_def slice_ok_def)

lemma make_slice_elems: "slice_elems (snd (make_slice n w)) (fst (make_slice n w)) = []"
  by (simp add: make_slice_def slice_elems_def)

section \<open>The spy facility records context, then call fields\<close>

text \<open>
  What Log of the spy facility does to the state, seen from the sinks: the sink of the
  facility gains one Log, whose fields are the context followed by the fields of the
  call; no other sink changes.
\<close>

lemma spyFacility_Log_sinks:
  assumes "slice_ok w (sf_context sf)"
  shows "sinks (spyFacility_Log sf ent flds w) =
         (sinks w)(sf_sink sf := sinks w (sf_sink sf) @
           [\<lparr>Log_Level = Level ent, Msg = Message ent,
             Fields = slice_elems w (sf_context sf) @ flds\<rparr>])"
proof -
  define n where "n = length flds + len (sf_context sf)"
  define all0 where "all0 = fst (make_slice n w)"
  define w0 where "w0 = snd (make_slice n w)"
  define c where "c = slice_elems w0 (sf_context sf)"
  define all1 where "all1 = fst (append_slice all0 c w0)"
  define w1 where "w1 = snd (append_slice all0 c w0)"
  define all2 where "all2 = fst (append_slice all1 flds w1)"
  define w2 where "w2 = snd (append_slice all1 flds w1)"
  have run: "spyFacility_Log sf ent flds w =
             Sink_WriteLog (sf_sink sf) (Level ent) (Message ent) (slice_elems w2 all2) w2"
    by (simp add: spyFacility_Log_def Let_def case_prod_beta n_def all0_def w0_def c_def
        all1_def w1_def all2_def w2_def)
  have c: "c = slice_elems w (sf_context sf)"
    unfolding c_def w0_def using assms by (rule make_slice_other)
  have ok0: "slice_ok w0 all0"
    unfolding w0_def all0_def by (rule make_slice_ok)
  have e0: "slice_elems w0 all0 = []"
    unfolding w0_def all0_def by (rule make_slice_elems)
  have ok1: "slice_ok w1 all1"
    unfolding w1_def all1_def using ok0 by (rule append_slice_ok)
  have e1: "slice_elems w1 all1 = c"
    unfolding w1_def all1_def using append_slice_elems [OF ok0, of c] e0 by simp
  have e2: "slice_elems w2 all2 = c @ flds"
    unfolding w2_def all2_def using append_slice_elems [OF ok1, of flds] e1 by simp
  have s: "sinks w2 = sinks w"
    by (simp add: w2_def w1_def w0_def append_slice_frame make_slice_frame)
  show ?thesis
    by (simp add: run Sink_WriteLog_def e2 c s)
qed

text \<open>
  C10. For every spy facility, whose context slice holds the fields c, every entry and
  every list fs of fields of the call, Log appends to the sink of the facility one Log
  with the level and the message of the entry, whose fields are exactly c followed by
  fs, each in its own order.
\<close>

theorem spyFacility_Log_context_then_fields:
  assumes "slice_ok w (sf_context sf)"
  shows "Sink_Logs (sf_sink sf) (spyFacility_Log sf ent fs w) =
         Sink_Logs (sf_sink sf) w @
           [\<lparr>Log_Level = Level ent, Msg = Message ent,
             Fields = slice_elems w (sf_context sf) @ fs\<rparr>]"
  using spyFacility_Log_sinks [OF assms, of ent fs] by (simp add: Sink_Logs_def)

theorem spyFacility_Log_context_then_fields_witness:
  "slice_ok world1 ctx1 \<and>
   Sink_Logs 0 (spyFacility_Log \<lparr>sf_sink = 0, sf_context = ctx1\<rparr>
       \<lparr>Level = InfoLevel, Time = ''t'', Message = ''start''\<rparr>
       [Field ''a'' ''1'', Field ''b'' ''2''] world1) =
     [\<lparr>Log_Level = InfoLevel, Msg = ''start'',
       Fields = [Field ''request_id'' ''abc'', Field ''a'' ''1'', Field ''b'' ''2'']\<rparr>]"
proof -
  have ok: "slice_ok world1 (sf_context \<lparr>sf_sink = 0, sf_context = ctx1\<rparr>)"
    by (simp add: slice_ok_def world1_def world0_def ctx1_def zero_Field_def)
  show ?thesis
    using ok spyFacility_Log_context_then_fields [OF ok,
        of "\<lparr>Level = InfoLevel, Time = ''t'', Message = ''start''\<rparr>"
           "[Field ''a'' ''1'', Field ''b'' ''2'']"]
    by (simp add: Sink_Logs_def slice_elems_def world1_def world0_def ctx1_def)
qed

section \<open>The loop over the hooks\<close>

lemmas ex_defs = spy_logger_def world0_def Level_Enabled_def exported_def
  spyFacility_Enabled_def spyFacility_Log_def make_slice_def append_slice_def
  Sink_WriteLog_def Sink_Logs_def slice_elems_def nil_slice_def Let_def
  hook_fail_def hook_rewrite_def hook_mark_def

lemma InternalError_eq:
  "InternalError log cause err w =
     w\<lparr>ticks := Suc (ticks w),
       writers := (writers w)(ErrorOutput log := writers w (ErrorOutput log) @
         [Write (clock w (ticks w) @ '' '' @ cause @ '' error: '' @ err @ ''\<newline>''), Sync])\<rparr>"
  by (simp add: InternalError_def time_Now_def WriteSyncer_Write_def WriteSyncer_Sync_def)

lemma run_hooks_eq:
  "run_hooks log hooks ent w =
     (after_hooks hooks ent,
      w\<lparr>ticks := ticks w + length (hook_errors hooks ent),
        writers := (writers w)(ErrorOutput log := writers w (ErrorOutput log) @
          hook_reports (clock w) (ticks w) (hook_errors hooks ent))\<rparr>)"
proof (induction hooks arbitrary: ent w)
  case Nil
  show ?case by (simp add: after_hooks_def)
next
  case (Cons hook hooks)
  obtain r ent' where h: "hook ent = (r, ent')" by (cases "hook ent")
  show ?case
  proof (cases r)
    case None
    with h Cons.IH [of ent' w] show ?thesis by (simp add: after_hooks_def)
  next
    case (Some err)
    with h Cons.IH [of ent' "InternalError log ''hook'' err w"] show ?thesis
      by (simp add: after_hooks_def InternalError_eq fun_upd_def cong: if_cong)
  qed
qed

lemma after_hooks_snoc: "after_hooks (hooks @ [hook]) ent = snd (hook (after_hooks hooks ent))"
  by (simp add: after_hooks_def)

lemma hook_reports_lines:
  "length (filter (\<lambda>op. op \<noteq> Sync) (hook_reports clk k errs)) = length errs"
  by (induction errs arbitrary: k) simp_all

lemma hook_reports_syncs:
  "length (filter (\<lambda>op. op = Sync) (hook_reports clk k errs)) = length errs"
  by (induction errs arbitrary: k) simp_all

lemma Logger_Log_eq:
  "Logger_Log log ent flds w =
     (if LevelEnabler log (Level ent) \<and> fac_Enabled (Facility log) (exported ent)
      then fac_Log (Facility log)
             (exported (after_hooks (Hooks log) (ent\<lparr>fac := Some (Facility log)\<rparr>))) flds
             (snd (run_hooks log (Hooks log) (ent\<lparr>fac := Some (Facility log)\<rparr>) w))
      else w)"
  by (simp add: Logger_Log_def Let_def case_prod_beta run_hooks_eq)

lemma run_hooks_slices:
  "slice_ok (snd (run_hooks log hooks ent w)) s = slice_ok w s"
  "slice_elems (snd (run_hooks log hooks ent w)) s = slice_elems w s"
  by (simp_all add: run_hooks_eq slice_ok_def slice_elems_def)

lemma run_hooks_entry: "fst (run_hooks log hooks ent w) = after_hooks hooks ent"
  by (simp add: run_hooks_eq)

lemma run_hooks_sinks: "sinks (snd (run_hooks log hooks ent w)) = sinks w"
  by (simp add: run_hooks_eq)

lemma Logger_log_eq:
  "Logger_log log lvl msg flds w =
     (if LevelEnabler log lvl \<and>
         fac_Enabled (Facility log) \<lparr>Level = lvl, Time = clock w (ticks w), Message = msg\<rparr>
      then fac_Log (Facility log)
             (exported (after_hooks (Hooks log)
                \<lparr>Level = lvl, Time = clock w (ticks w), Message = msg, fac = Some (Facility log)\<rparr>))
             flds
             (snd (run_hooks log (Hooks log)
                \<lparr>Level = lvl, Time = clock w (ticks w), Message = msg, fac = Some (Facility log)\<rparr>
                (w\<lparr>ticks := Suc (ticks w)\<rparr>)))
      else w\<lparr>ticks := Suc (ticks w)\<rparr>)"
  by (simp add: Logger_log_def time_Now_def Logger_Log_eq exported_def)

lemma spyFacility_Log_count:
  "length (sinks (spyFacility_Log sf ent flds w) (sf_sink sf)) = Suc (length (sinks w (sf_sink sf)))"
  by (simp add: spyFacility_Log_def Let_def case_prod_beta Sink_WriteLog_def
      append_slice_frame make_slice_frame)

section \<open>The writer facility\<close>

lemma writes_foldl:
  "foldl (\<lambda>w' c. WriteSyncer_Write out c w') w chunks =
     w\<lparr>writers := (writers w)(out := writers w out @ map Write chunks)\<rparr>"
proof (induction chunks arbitrary: w)
  case Nil
  show ?case by simp
next
  case (Cons c chunks)
  have "foldl (\<lambda>w' c. WriteSyncer_Write out c w') w (c # chunks) =
        foldl (\<lambda>w' c. WriteSyncer_Write out c w') (WriteSyncer_Write out c w) chunks"
    by simp
  also have "\<dots> = (WriteSyncer_Write out c w)\<lparr>writers :=
        (writers (WriteSyncer_Write out c w))(out :=
           writers (WriteSyncer_Write out c w) out @ map Write chunks)\<rparr>"
    by (rule Cons.IH)
  also have "\<dots> = w\<lparr>writers := (writers w)(out := writers w out @ map Write (c # chunks))\<rparr>"
    by (simp add: WriteSyncer_Write_def)
  finally show ?case .
qed

lemma Level_above_Error:
  "(Level_int ErrorLevel < Level_int lvl) = (lvl = DPanicLevel \<or> lvl = PanicLevel \<or> lvl = FatalLevel)"
  by (cases lvl) simp_all

lemma ioFacility_Log_eq:
  "ioFacility_Log iof ent flds w =
     w\<lparr>writers := (writers w)(Output iof := writers w (Output iof) @
        map Write (fst (enc_entry (Encoder iof) (enc_fields (Encoder iof) @ flds)
                          (Message ent) (Level ent) (Time ent))) @
        (if Level ent = DPanicLevel \<or> Level ent = PanicLevel \<or> Level ent = FatalLevel
         then [Sync] else []))\<rparr>"
proof -
  have err: "(case e of None \<Rightarrow> v | Some x \<Rightarrow> v) = v" for e :: "error option" and v :: world
    by (cases e) simp_all
  show ?thesis
    unfolding ioFacility_Log_def Encoder_WriteEntry_def Let_def case_prod_beta
    by (simp add: err writes_foldl Level_above_Error [simplified] WriteSyncer_Sync_def
        addFields_def Encoder_Clone_def)
qed

lemma Fatal_always_enabled: "Level_Enabled t FatalLevel"
  by (cases t) (simp_all add: Level_Enabled_def)

text \<open>
  Fatal on a logger over the writer facility, for any threshold and any hooks: the exit
  comes in the state that Log of the facility leaves, called on the entry as the hooks
  leave it, when the threshold enables Fatal; otherwise only the clock has been read.
\<close>

lemma Logger_Fatal_io_eq:
  "Logger_Fatal \<lparr>LevelEnabler = en, Facility = io_Facility iof, Development = dev,
                 Hooks = hs, ErrorOutput = eo\<rparr> msg flds w =
     (Exits 1,
      if en FatalLevel
      then ioFacility_Log iof
             (exported (after_hooks hs
                \<lparr>Level = FatalLevel, Time = clock w (ticks w), Message = msg,
                  fac = Some (io_Facility iof)\<rparr>))
             flds
             (w\<lparr>ticks := Suc (ticks w) + length (hook_errors hs
                   \<lparr>Level = FatalLevel, Time = clock w (ticks w), Message = msg,
                     fac = Some (io_Facility iof)\<rparr>),
                writers := (writers w)(eo := writers w eo @
                  hook_reports (clock w) (Suc (ticks w)) (hook_errors hs
                    \<lparr>Level = FatalLevel, Time = clock w (ticks w), Message = msg,
                      fac = Some (io_Facility iof)\<rparr>))\<rparr>)
      else w\<lparr>ticks := Suc (ticks w)\<rparr>)"
  by (simp add: Logger_Fatal_def Logger_log_eq run_hooks_eq ioFacility_Enabled_def)

section \<open>Derivation\<close>

lemma spyFacility_With_eq:
  "spyFacility_With sf fs w =
     (\<lparr>sf_sink = sf_sink sf, sf_context = fst (append_slice (sf_context sf) fs w)\<rparr>,
      snd (append_slice (sf_context sf) fs w))"
  by (simp add: spyFacility_With_def case_prod_beta)

lemma spy_Facility_With:
  "fac_With (spy_Facility sf) fs w =
     (spy_Facility (fst (spyFacility_With sf fs w)), snd (spyFacility_With sf fs w))"
  by (cases "spyFacility_With sf fs w") simp

lemma Logger_With_eq:
  "Logger_With log fs w =
     (\<lparr>LevelEnabler = LevelEnabler log,
       Facility = fst (fac_With (Facility log) fs w),
       Development = Development log,
       Hooks = Hooks log,
       ErrorOutput = ErrorOutput log\<rparr>,
      snd (fac_With (Facility log) fs w))"
  by (simp add: Logger_With_def case_prod_beta)

lemma spy_parent_logs_same:
  assumes fac: "Facility log = spy_Facility sf"
    and ok: "slice_ok w (sf_context sf)"
  shows "sinks (Logger_Log log ent gs (snd (spyFacility_With sf fs w))) =
         sinks (Logger_Log log ent gs w)"
proof -
  define w' where "w' = snd (append_slice (sf_context sf) fs w)"
  have w': "snd (spyFacility_With sf fs w) = w'"
    by (simp add: spyFacility_With_eq w'_def)
  have ok': "slice_ok w' (sf_context sf)"
    unfolding w'_def using ok by (rule append_slice_parent_ok)
  have el: "slice_elems w' (sf_context sf) = slice_elems w (sf_context sf)"
    unfolding w'_def using ok by (rule append_slice_parent)
  have sk: "sinks w' = sinks w"
    by (simp add: w'_def append_slice_frame)
  define e1 where "e1 = ent\<lparr>fac := Some (Facility log)\<rparr>"
  have a: "sinks (spyFacility_Log sf (exported (after_hooks (Hooks log) e1)) gs
                   (snd (run_hooks log (Hooks log) e1 w'))) =
           sinks (spyFacility_Log sf (exported (after_hooks (Hooks log) e1)) gs
                   (snd (run_hooks log (Hooks log) e1 w)))"
    using ok ok' by (simp add: spyFacility_Log_sinks run_hooks_slices run_hooks_sinks el sk)
  show ?thesis
    unfolding w' using a by (simp add: Logger_Log_eq fac e1_def sk)
qed


lemma Level_at_most_DPanic:
  "(Level_int t \<le> Level_int DPanicLevel) = (t \<noteq> PanicLevel \<and> t \<noteq> FatalLevel)"
  by (cases t) simp_all

section \<open>The claims\<close>

text \<open>
  C1, as the code has it. A logging call on a logger with the fixed threshold t delivers
  (calls Log of the facility) exactly when the severity s is at least t and the facility
  reports the entry eligible; otherwise it only reads the clock. This holds for every
  severity: Debug, Info, Warn, Error, DPanic, Panic and Fatal all go through
  \<^verbatim>\<open>log.log\<close>, and the panic of Panic (and of DPanic in development mode) and the
  exit of Fatal follow whether or not the entry was delivered. On a spy facility the
  sink gains exactly one Log when s is at least t, and none otherwise.
\<close>

theorem logging_call_delivers_iff_gates_pass:
  assumes "LevelEnabler log = Level_Enabled t"
  shows "Logger_log log s msg flds w =
     (if Level_int t \<le> Level_int s \<and>
         fac_Enabled (Facility log) \<lparr>Level = s, Time = clock w (ticks w), Message = msg\<rparr>
      then fac_Log (Facility log)
             (exported (after_hooks (Hooks log)
                \<lparr>Level = s, Time = clock w (ticks w), Message = msg, fac = Some (Facility log)\<rparr>))
             flds
             (snd (run_hooks log (Hooks log)
                \<lparr>Level = s, Time = clock w (ticks w), Message = msg, fac = Some (Facility log)\<rparr>
                (w\<lparr>ticks := Suc (ticks w)\<rparr>)))
      else w\<lparr>ticks := Suc (ticks w)\<rparr>) \<and>
    Logger_Debug log msg flds w = (Returns, Logger_log log DebugLevel msg flds w) \<and>
    Logger_Info log msg flds w = (Returns, Logger_log log InfoLevel msg flds w) \<and>
    Logger_Warn log msg flds w = (Returns, Logger_log log WarnLevel msg flds w) \<and>
    Logger_Error log msg flds w = (Returns, Logger_log log ErrorLevel msg flds w) \<and>
    Logger_DPanic log msg flds w =
      (if Development log then Panics msg else Returns, Logger_log log DPanicLevel msg flds w) \<and>
    Logger_Panic log msg flds w = (Panics msg, Logger_log log PanicLevel msg flds w) \<and>
    Logger_Fatal log msg flds w = (Exits 1, Logger_log log FatalLevel msg flds w) \<and>
    length (Sink_Logs (sf_sink sf) (Logger_log (log\<lparr>Facility := spy_Facility sf\<rparr>) s msg flds w)) =
      length (Sink_Logs (sf_sink sf) w) + (if Level_int t \<le> Level_int s then 1 else 0)"
proof -
  have a: "LevelEnabler (log\<lparr>Facility := spy_Facility sf\<rparr>) = Level_Enabled t"
    using assms by simp
  have spy: "length (Sink_Logs (sf_sink sf)
                (Logger_log (log\<lparr>Facility := spy_Facility sf\<rparr>) s msg flds w)) =
      length (Sink_Logs (sf_sink sf) w) + (if Level_int t \<le> Level_int s then 1 else 0)"
    by (simp add: Logger_log_eq a Level_Enabled_def Sink_Logs_def spyFacility_Enabled_def
        spyFacility_Log_count run_hooks_sinks)
  have gen: "Logger_log log s msg flds w =
     (if Level_int t \<le> Level_int s \<and>
         fac_Enabled (Facility log) \<lparr>Level = s, Time = clock w (ticks w), Message = msg\<rparr>
      then fac_Log (Facility log)
             (exported (after_hooks (Hooks log)
                \<lparr>Level = s, Time = clock w (ticks w), Message = msg, fac = Some (Facility log)\<rparr>))
             flds
             (snd (run_hooks log (Hooks log)
                \<lparr>Level = s, Time = clock w (ticks w), Message = msg, fac = Some (Facility log)\<rparr>
                (w\<lparr>ticks := Suc (ticks w)\<rparr>)))
      else w\<lparr>ticks := Suc (ticks w)\<rparr>)"
    by (simp add: Logger_log_eq assms Level_Enabled_def)
  have meth: "Logger_Debug log msg flds w = (Returns, Logger_log log DebugLevel msg flds w)"
    "Logger_Info log msg flds w = (Returns, Logger_log log InfoLevel msg flds w)"
    "Logger_Warn log msg flds w = (Returns, Logger_log log WarnLevel msg flds w)"
    "Logger_Error log msg flds w = (Returns, Logger_log log ErrorLevel msg flds w)"
    "Logger_DPanic log msg flds w =
      (if Development log then Panics msg else Returns, Logger_log log DPanicLevel msg flds w)"
    "Logger_Panic log msg flds w = (Panics msg, Logger_log log PanicLevel msg flds w)"
    "Logger_Fatal log msg flds w = (Exits 1, Logger_log log FatalLevel msg flds w)"
    by (simp_all add: Logger_Debug_def Logger_Info_def Logger_Warn_def Logger_Error_def
        Logger_DPanic_def Logger_Panic_def Logger_Fatal_def Let_def)
  from gen meth spy show ?thesis by (intro conjI)
qed

theorem logging_call_delivers_iff_gates_pass_witness:
  "LevelEnabler (spy_logger WarnLevel False []) = Level_Enabled WarnLevel \<and>
   Sink_Logs 0 (Logger_log (spy_logger WarnLevel False []) InfoLevel ''x'' [] world0) = [] \<and>
   Sink_Logs 0 (Logger_log (spy_logger WarnLevel False []) ErrorLevel ''y'' [] world0) =
     [\<lparr>Log_Level = ErrorLevel, Msg = ''y'', Fields = []\<rparr>]"
proof -
  have g: "LevelEnabler (spy_logger WarnLevel False []) = Level_Enabled WarnLevel"
    by (simp add: spy_logger_def)
  show ?thesis
    using g logging_call_delivers_iff_gates_pass [OF g, of InfoLevel "''x''" "[]" world0]
      logging_call_delivers_iff_gates_pass [OF g, of ErrorLevel "''y''" "[]" world0]
    by (simp add: ex_defs after_hooks_def)
qed

text \<open>
  C1 as the spec states it fails: with the threshold Fatal, Panic panics and delivers
  nothing; with the threshold Panic and development mode on, DPanic delivers nothing.
\<close>

theorem Panic_not_delivered_counterexample:
  "Logger_Panic (spy_logger FatalLevel False []) ''boom'' [] world0 =
     (Panics ''boom'', world0\<lparr>ticks := 1\<rparr>) \<and>
   Sink_Logs 0 (snd (Logger_Panic (spy_logger FatalLevel False []) ''boom'' [] world0)) = [] \<and>
   Sink_Logs 0 (snd (Logger_DPanic (spy_logger PanicLevel True []) ''boom'' [] world0)) = []"
  by (simp add: Logger_Panic_def Logger_DPanic_def Logger_log_def Logger_Log_def time_Now_def
      spy_logger_def Level_Enabled_def world0_def Sink_Logs_def)

text \<open>
  C2, as the code has it. Log of the writer facility hands the chunks of the entry to the
  output and then, exactly when the severity of the entry it is given is DPanic, Panic
  or Fatal (above Error), calls Sync on it once; for Error and below there is no Sync,
  and nothing else in the state changes. Fatal exits with status 1 in the state the
  logging call leaves. Over the writer facility, for any threshold and any hooks, that
  state is: when the threshold enables Fatal, the reports of the failing hooks, then
  the chunks of the entry as the hooks leave it, then one Sync exactly when the
  severity the hooks leave is still above Error; when the threshold does not enable
  Fatal, nothing but the reading of the clock. With a fixed threshold and no hooks the
  exit follows the chunks and the one Sync.
\<close>

theorem ioFacility_Log_syncs_above_Error:
  "ioFacility_Log iof ent flds w =
     w\<lparr>writers := (writers w)(Output iof := writers w (Output iof) @
        map Write (fst (enc_entry (Encoder iof) (enc_fields (Encoder iof) @ flds)
                          (Message ent) (Level ent) (Time ent))) @
        (if Level ent = DPanicLevel \<or> Level ent = PanicLevel \<or> Level ent = FatalLevel
         then [Sync] else []))\<rparr> \<and>
   Logger_Fatal log msg flds w = (Exits 1, Logger_log log FatalLevel msg flds w) \<and>
   Logger_Fatal \<lparr>LevelEnabler = en, Facility = io_Facility iof, Development = dev,
                 Hooks = hs, ErrorOutput = eo\<rparr> msg flds w =
     (Exits 1,
      if en FatalLevel
      then ioFacility_Log iof
             (exported (after_hooks hs
                \<lparr>Level = FatalLevel, Time = clock w (ticks w), Message = msg,
                  fac = Some (io_Facility iof)\<rparr>))
             flds
             (w\<lparr>ticks := Suc (ticks w) + length (hook_errors hs
                   \<lparr>Level = FatalLevel, Time = clock w (ticks w), Message = msg,
                     fac = Some (io_Facility iof)\<rparr>),
                writers := (writers w)(eo := writers w eo @
                  hook_reports (clock w) (Suc (ticks w)) (hook_errors hs
                    \<lparr>Level = FatalLevel, Time = clock w (ticks w), Message = msg,
                      fac = Some (io_Facility iof)\<rparr>))\<rparr>)
      else w\<lparr>ticks := Suc (ticks w)\<rparr>) \<and>
   Logger_Fatal \<lparr>LevelEnabler = Level_Enabled t, Facility = io_Facility iof, Development = dev,
                 Hooks = [], ErrorOutput = eo\<rparr> msg flds w =
     (Exits 1,
      w\<lparr>ticks := Suc (ticks w),
        writers := (writers w)(Output iof := writers w (Output iof) @
          map Write (fst (enc_entry (Encoder iof) (enc_fields (Encoder iof) @ flds)
                            msg FatalLevel (clock w (ticks w)))) @ [Sync])\<rparr>)"
proof -
  have 1: "Logger_Fatal log msg flds w = (Exits 1, Logger_log log FatalLevel msg flds w)"
    by (simp add: Logger_Fatal_def)
  have 2: "Logger_Fatal \<lparr>LevelEnabler = Level_Enabled t, Facility = io_Facility iof,
                 Development = dev, Hooks = [], ErrorOutput = eo\<rparr> msg flds w =
     (Exits 1,
      w\<lparr>ticks := Suc (ticks w),
        writers := (writers w)(Output iof := writers w (Output iof) @
          map Write (fst (enc_entry (Encoder iof) (enc_fields (Encoder iof) @ flds)
                            msg FatalLevel (clock w (ticks w)))) @ [Sync])\<rparr>)"
    by (simp add: Logger_Fatal_def Logger_log_def Logger_Log_def time_Now_def
        Fatal_always_enabled ioFacility_Enabled_def ioFacility_Log_eq exported_def)
  from ioFacility_Log_eq [of iof ent flds w] 1
    Logger_Fatal_io_eq [of en iof dev hs eo msg flds w] 2
  show ?thesis by (intro conjI)
qed

theorem ioFacility_Log_syncs_above_Error_witness:
  "Logger_Fatal (io_logger enc_plain) ''bye'' [] world0 =
     (Exits 1, world0\<lparr>ticks := 1, writers := (\<lambda>a. [])(1 := [Write ''bye'', Sync])\<rparr>) \<and>
   Logger_Fatal ((io_logger enc_plain)\<lparr>Hooks := [hook_fail, hook_mark]\<rparr>) ''bye'' [] world0 =
     (Exits 1, world0\<lparr>ticks := 2,
        writers := (\<lambda>a. [])(2 := [Write ''t1 hook error: bad\<newline>'', Sync],
                              1 := [Write ''bye!'', Sync])\<rparr>) \<and>
   writers (ioFacility_Log \<lparr>Encoder = enc_plain, Output = 1\<rparr>
              \<lparr>Level = ErrorLevel, Time = ''t'', Message = ''e''\<rparr> [] world0) 1 = [Write ''e''] \<and>
   writers (ioFacility_Log \<lparr>Encoder = enc_plain, Output = 1\<rparr>
              \<lparr>Level = DPanicLevel, Time = ''t'', Message = ''d''\<rparr> [] world0) 1 =
     [Write ''d'', Sync]"
  using ioFacility_Log_syncs_above_Error [where iof = "\<lparr>Encoder = enc_plain, Output = 1\<rparr>"
      and ent = "\<lparr>Level = ErrorLevel, Time = ''t'', Message = ''e''\<rparr>" and flds = "[]"
      and w = world0 and log = "io_logger enc_plain" and msg = "''bye''" and t = InfoLevel
      and dev = False and eo = 2 and en = "Level_Enabled InfoLevel"
      and hs = "[hook_fail, hook_mark]"]
    ioFacility_Log_syncs_above_Error [where iof = "\<lparr>Encoder = enc_plain, Output = 1\<rparr>"
      and ent = "\<lparr>Level = DPanicLevel, Time = ''t'', Message = ''d''\<rparr>" and flds = "[]"
      and w = world0 and log = "io_logger enc_plain" and msg = "''bye''" and t = InfoLevel
      and dev = False and eo = 2 and en = "Level_Enabled InfoLevel"
      and hs = "[hook_fail, hook_mark]"]
  by (simp add: io_logger_def enc_plain_def world0_def hook_fail_def hook_mark_def
      Level_Enabled_def after_hooks_def exported_def ioFacility_Log_eq)

text \<open>
  C2 as the spec states it fails for Fatal: the exit does not wait for a flush. With a
  hook that lowers the severity to Info the record is written and the process exits
  with no Sync; with a threshold that does not enable Fatal the process exits with
  nothing written.
\<close>

theorem Fatal_exits_without_flush_counterexample:
  "Logger_Fatal ((io_logger enc_plain)\<lparr>Hooks := [hook_lower]\<rparr>) ''bye'' [] world0 =
     (Exits 1, world0\<lparr>ticks := 1, writers := (\<lambda>a. [])(1 := [Write ''bye''])\<rparr>) \<and>
   Logger_Fatal ((io_logger enc_plain)\<lparr>LevelEnabler := (\<lambda>lvl. False)\<rparr>) ''bye'' [] world0 =
     (Exits 1, world0\<lparr>ticks := 1\<rparr>)"
  by (simp add: Logger_Fatal_def Logger_log_def Logger_Log_def time_Now_def io_logger_def
      enc_plain_def hook_lower_def Level_Enabled_def ioFacility_Enabled_def ioFacility_Log_eq
      exported_def world0_def)

text \<open>
  C3. With returns a logger with the threshold, the hooks, the error output and the
  development flag of the parent, whose facility is what With of the parent's facility
  returns. For the spy facility (on a context slice the program can hold) the child has
  the sink of the parent and the context of the parent followed by fs, the context of
  the parent reads as before (both stay slices the program can hold), and a logging call
  through the parent leaves the same sinks after the derivation as before it. For the writer facility the child has the
  output of the parent and an encoder with fs added, and the state is untouched.
\<close>

theorem Logger_With_shares_and_leaves_parent:
  "LevelEnabler (fst (Logger_With log fs w)) = LevelEnabler log \<and>
   Hooks (fst (Logger_With log fs w)) = Hooks log \<and>
   ErrorOutput (fst (Logger_With log fs w)) = ErrorOutput log \<and>
   Development (fst (Logger_With log fs w)) = Development log \<and>
   Facility (fst (Logger_With log fs w)) = fst (fac_With (Facility log) fs w) \<and>
   snd (Logger_With log fs w) = snd (fac_With (Facility log) fs w) \<and>
   (Facility log = spy_Facility sf \<and> slice_ok w (sf_context sf) \<longrightarrow>
      Facility (fst (Logger_With log fs w)) = spy_Facility (fst (spyFacility_With sf fs w)) \<and>
      sf_sink (fst (spyFacility_With sf fs w)) = sf_sink sf \<and>
      slice_elems (snd (Logger_With log fs w)) (sf_context (fst (spyFacility_With sf fs w))) =
        slice_elems w (sf_context sf) @ fs \<and>
      slice_elems (snd (Logger_With log fs w)) (sf_context sf) = slice_elems w (sf_context sf) \<and>
      slice_ok (snd (Logger_With log fs w)) (sf_context sf) \<and>
      slice_ok (snd (Logger_With log fs w)) (sf_context (fst (spyFacility_With sf fs w))) \<and>
      sinks (Logger_Log log ent gs (snd (Logger_With log fs w))) =
        sinks (Logger_Log log ent gs w)) \<and>
   (Facility log = io_Facility iof \<longrightarrow>
      Facility (fst (Logger_With log fs w)) = io_Facility (ioFacility_With iof fs) \<and>
      enc_fields (Encoder (ioFacility_With iof fs)) = enc_fields (Encoder iof) @ fs \<and>
      enc_entry (Encoder (ioFacility_With iof fs)) = enc_entry (Encoder iof) \<and>
      Output (ioFacility_With iof fs) = Output iof \<and>
      snd (Logger_With log fs w) = w)"
proof -
  have gen: "LevelEnabler (fst (Logger_With log fs w)) = LevelEnabler log"
    "Hooks (fst (Logger_With log fs w)) = Hooks log"
    "ErrorOutput (fst (Logger_With log fs w)) = ErrorOutput log"
    "Development (fst (Logger_With log fs w)) = Development log"
    "Facility (fst (Logger_With log fs w)) = fst (fac_With (Facility log) fs w)"
    "snd (Logger_With log fs w) = snd (fac_With (Facility log) fs w)"
    by (simp_all add: Logger_With_eq)
  have spy: "Facility (fst (Logger_With log fs w)) = spy_Facility (fst (spyFacility_With sf fs w)) \<and>
      sf_sink (fst (spyFacility_With sf fs w)) = sf_sink sf \<and>
      slice_elems (snd (Logger_With log fs w)) (sf_context (fst (spyFacility_With sf fs w))) =
        slice_elems w (sf_context sf) @ fs \<and>
      slice_elems (snd (Logger_With log fs w)) (sf_context sf) = slice_elems w (sf_context sf) \<and>
      slice_ok (snd (Logger_With log fs w)) (sf_context sf) \<and>
      slice_ok (snd (Logger_With log fs w)) (sf_context (fst (spyFacility_With sf fs w))) \<and>
      sinks (Logger_Log log ent gs (snd (Logger_With log fs w))) =
        sinks (Logger_Log log ent gs w)"
    if fac: "Facility log = spy_Facility sf" and ok: "slice_ok w (sf_context sf)"
  proof -
    have w': "snd (Logger_With log fs w) = snd (spyFacility_With sf fs w)"
      by (simp add: Logger_With_eq fac spy_Facility_With)
    have 1: "Facility (fst (Logger_With log fs w)) = spy_Facility (fst (spyFacility_With sf fs w))"
      by (simp add: Logger_With_eq fac spy_Facility_With)
    have 2: "sf_sink (fst (spyFacility_With sf fs w)) = sf_sink sf"
      by (simp add: spyFacility_With_eq)
    have 3: "slice_elems (snd (Logger_With log fs w)) (sf_context (fst (spyFacility_With sf fs w))) =
        slice_elems w (sf_context sf) @ fs"
      using append_slice_elems [OF ok, of fs] by (simp add: w' spyFacility_With_eq)
    have 4: "slice_elems (snd (Logger_With log fs w)) (sf_context sf) = slice_elems w (sf_context sf)"
      using append_slice_parent [OF ok, of fs] by (simp add: w' spyFacility_With_eq)
    have 5: "sinks (Logger_Log log ent gs (snd (Logger_With log fs w))) =
        sinks (Logger_Log log ent gs w)"
      unfolding w' using fac ok by (rule spy_parent_logs_same)
    have 6: "slice_ok (snd (Logger_With log fs w)) (sf_context sf)"
      using append_slice_parent_ok [OF ok, of fs] by (simp add: w' spyFacility_With_eq)
    have 7: "slice_ok (snd (Logger_With log fs w)) (sf_context (fst (spyFacility_With sf fs w)))"
      using append_slice_ok [OF ok, of fs] by (simp add: w' spyFacility_With_eq)
    from 1 2 3 4 6 7 5 show ?thesis by (intro conjI)
  qed
  have io: "Facility (fst (Logger_With log fs w)) = io_Facility (ioFacility_With iof fs) \<and>
      enc_fields (Encoder (ioFacility_With iof fs)) = enc_fields (Encoder iof) @ fs \<and>
      enc_entry (Encoder (ioFacility_With iof fs)) = enc_entry (Encoder iof) \<and>
      Output (ioFacility_With iof fs) = Output iof \<and>
      snd (Logger_With log fs w) = w"
    if fac: "Facility log = io_Facility iof"
    by (simp add: Logger_With_eq fac ioFacility_With_def addFields_def Encoder_Clone_def)
  from gen spy io show ?thesis by blast
qed

theorem Logger_With_shares_and_leaves_parent_witness:
  "slice_ok world1 ctx1 \<and>
   slice_elems (snd (Logger_With
       ((spy_logger InfoLevel False [])\<lparr>Facility := spy_Facility \<lparr>sf_sink = 0, sf_context = ctx1\<rparr>\<rparr>)
       [Field ''k'' ''v''] world1)) (sf_context (fst (spyFacility_With
          \<lparr>sf_sink = 0, sf_context = ctx1\<rparr> [Field ''k'' ''v''] world1))) =
     [Field ''request_id'' ''abc'', Field ''k'' ''v''] \<and>
   sf_context (fst (spyFacility_With \<lparr>sf_sink = 0, sf_context = ctx1\<rparr> [Field ''k'' ''v''] world1)) =
     \<lparr>arr = 1, len = 2, cap = 2\<rparr> \<and>
   Sink_Logs 0 (Logger_Log
       ((spy_logger InfoLevel False [])\<lparr>Facility := spy_Facility \<lparr>sf_sink = 0, sf_context = ctx1\<rparr>\<rparr>)
       \<lparr>Level = InfoLevel, Time = ''t'', Message = ''m'', fac = None\<rparr> [Field ''a'' ''1'']
       (snd (Logger_With
          ((spy_logger InfoLevel False [])\<lparr>Facility := spy_Facility \<lparr>sf_sink = 0, sf_context = ctx1\<rparr>\<rparr>)
          [Field ''k'' ''v''] world1))) =
     [\<lparr>Log_Level = InfoLevel, Msg = ''m'',
       Fields = [Field ''request_id'' ''abc'', Field ''a'' ''1'']\<rparr>]"
proof -
  have ok: "slice_ok world1 ctx1"
    by (simp add: slice_ok_def world1_def world0_def ctx1_def zero_Field_def)
  show ?thesis
    using ok Logger_With_shares_and_leaves_parent
      [of "(spy_logger InfoLevel False [])\<lparr>Facility := spy_Facility \<lparr>sf_sink = 0, sf_context = ctx1\<rparr>\<rparr>"
          "[Field ''k'' ''v'']" world1 "\<lparr>sf_sink = 0, sf_context = ctx1\<rparr>"
          "\<lparr>Level = InfoLevel, Time = ''t'', Message = ''m'', fac = None\<rparr>" "[Field ''a'' ''1'']"]
    by (simp add: Logger_With_eq spy_Facility_With spyFacility_With_eq Logger_Log_def
        ex_defs world1_def ctx1_def zero_Field_def)
qed

text \<open>
  C4. When the entry passes both gates, Log delivers the entry as all the hooks leave it,
  in a state that differs from the one before in this only: the error output has
  received, for each failing hook in order, one line with the cause "hook" and one Sync,
  and the clock has been read once per report. The number of lines is the number of
  failing hooks.
\<close>

theorem hook_errors_reported_once_each:
  assumes "LevelEnabler log (Level ent)"
    and "fac_Enabled (Facility log) (exported ent)"
  shows "Logger_Log log ent flds w =
           fac_Log (Facility log)
             (exported (after_hooks (Hooks log) (ent\<lparr>fac := Some (Facility log)\<rparr>))) flds
             (w\<lparr>ticks := ticks w + length (hook_errors (Hooks log) (ent\<lparr>fac := Some (Facility log)\<rparr>)),
                writers := (writers w)(ErrorOutput log := writers w (ErrorOutput log) @
                  hook_reports (clock w) (ticks w)
                    (hook_errors (Hooks log) (ent\<lparr>fac := Some (Facility log)\<rparr>)))\<rparr>) \<and>
         length (filter (\<lambda>op. op \<noteq> Sync)
            (hook_reports (clock w) (ticks w)
               (hook_errors (Hooks log) (ent\<lparr>fac := Some (Facility log)\<rparr>)))) =
           length (hook_errors (Hooks log) (ent\<lparr>fac := Some (Facility log)\<rparr>)) \<and>
         length (filter (\<lambda>op. op = Sync)
            (hook_reports (clock w) (ticks w)
               (hook_errors (Hooks log) (ent\<lparr>fac := Some (Facility log)\<rparr>)))) =
           length (hook_errors (Hooks log) (ent\<lparr>fac := Some (Facility log)\<rparr>))"
  using assms by (simp add: Logger_Log_eq run_hooks_eq hook_reports_lines hook_reports_syncs)

theorem hook_errors_reported_once_each_witness:
  "LevelEnabler (spy_logger InfoLevel False [hook_fail, hook_rewrite]) InfoLevel \<and>
   writers (Logger_Log (spy_logger InfoLevel False [hook_fail, hook_rewrite])
              \<lparr>Level = InfoLevel, Time = ''t'', Message = ''z'', fac = None\<rparr> [] world0) 2 =
     [Write ''t0 hook error: bad\<newline>'', Sync] \<and>
   Sink_Logs 0 (Logger_Log (spy_logger InfoLevel False [hook_fail, hook_rewrite])
              \<lparr>Level = InfoLevel, Time = ''t'', Message = ''z'', fac = None\<rparr> [] world0) =
     [\<lparr>Log_Level = InfoLevel, Msg = ''rewritten'', Fields = []\<rparr>]"
proof -
  have g1: "LevelEnabler (spy_logger InfoLevel False [hook_fail, hook_rewrite])
              (Level \<lparr>Level = InfoLevel, Time = ''t'', Message = ''z'', fac = None\<rparr>)"
    by (simp add: spy_logger_def Level_Enabled_def)
  have g2: "fac_Enabled (Facility (spy_logger InfoLevel False [hook_fail, hook_rewrite]))
              (exported \<lparr>Level = InfoLevel, Time = ''t'', Message = ''z'', fac = None\<rparr>)"
    by (simp add: spy_logger_def spyFacility_Enabled_def)
  show ?thesis
    using g1 hook_errors_reported_once_each [OF g1 g2, of "[]" world0]
    by (simp add: ex_defs after_hooks_def)
qed

text \<open>
  C5. When the entry passes both gates, the entry handed to Log of the facility is the
  entry bound to the facility and then passed through every hook in the order of
  registration, each hook getting the entry the one before it left: with no hook the
  entry is unchanged, and the last hook of the list works on what the hooks before it
  have made of the entry.
\<close>

theorem hooks_run_in_order_before_delivery:
  assumes "LevelEnabler log (Level ent)"
    and "fac_Enabled (Facility log) (exported ent)"
  shows "Logger_Log log ent flds w =
           fac_Log (Facility log)
             (exported (after_hooks (Hooks log) (ent\<lparr>fac := Some (Facility log)\<rparr>))) flds
             (snd (run_hooks log (Hooks log) (ent\<lparr>fac := Some (Facility log)\<rparr>) w)) \<and>
         after_hooks [] e = e \<and>
         after_hooks (hooks @ [hook]) e = snd (hook (after_hooks hooks e))"
  using assms by (simp add: Logger_Log_eq after_hooks_snoc) (simp add: after_hooks_def)

theorem hooks_run_in_order_before_delivery_witness:
  "LevelEnabler (spy_logger InfoLevel False [hook_rewrite, hook_mark]) InfoLevel \<and>
   Sink_Logs 0 (Logger_Log (spy_logger InfoLevel False [hook_rewrite, hook_mark])
              \<lparr>Level = InfoLevel, Time = ''t'', Message = ''z'', fac = None\<rparr> [] world0) =
     [\<lparr>Log_Level = InfoLevel, Msg = ''rewritten!'', Fields = []\<rparr>]"
proof -
  have g1: "LevelEnabler (spy_logger InfoLevel False [hook_rewrite, hook_mark])
              (Level \<lparr>Level = InfoLevel, Time = ''t'', Message = ''z'', fac = None\<rparr>)"
    by (simp add: spy_logger_def Level_Enabled_def)
  have g2: "fac_Enabled (Facility (spy_logger InfoLevel False [hook_rewrite, hook_mark]))
              (exported \<lparr>Level = InfoLevel, Time = ''t'', Message = ''z'', fac = None\<rparr>)"
    by (simp add: spy_logger_def spyFacility_Enabled_def)
  show ?thesis
    using g1 hooks_run_in_order_before_delivery [OF g1 g2, where flds = "[]" and w = world0
        and e = "\<lparr>Level = InfoLevel, Time = ''t'', Message = ''z'', fac = None\<rparr>"
        and hooks = "[hook_rewrite]" and hook = hook_mark]
    by (simp add: ex_defs after_hooks_def)
qed

text \<open>
  C6, as the code has it. Check returns the entry bound to the logger's facility exactly
  when the level is Panic or Fatal, or DPanic in development mode, or the threshold
  enables the level and the facility reports the entry eligible; otherwise it returns
  nil. Either way it reads the clock once and does nothing else: no hook runs and
  nothing is delivered.
\<close>

theorem Check_token_iff:
  "fst (Check log lvl msg w) =
     (if lvl = PanicLevel \<or> lvl = FatalLevel \<or> (lvl = DPanicLevel \<and> Development log) \<or>
         (LevelEnabler log lvl \<and>
          fac_Enabled (Facility log) \<lparr>Level = lvl, Time = clock w (ticks w), Message = msg\<rparr>)
      then Some \<lparr>Level = lvl, Time = clock w (ticks w), Message = msg, fac = Some (Facility log)\<rparr>
      else None) \<and>
   (fst (Check log lvl msg w) \<noteq> None) =
     (lvl = PanicLevel \<or> lvl = FatalLevel \<or> (lvl = DPanicLevel \<and> Development log) \<or>
      (LevelEnabler log lvl \<and>
       fac_Enabled (Facility log) \<lparr>Level = lvl, Time = clock w (ticks w), Message = msg\<rparr>)) \<and>
   snd (Check log lvl msg w) = w\<lparr>ticks := Suc (ticks w)\<rparr>"
proof -
  have tok: "fst (Check log lvl msg w) =
     (if lvl = PanicLevel \<or> lvl = FatalLevel \<or> (lvl = DPanicLevel \<and> Development log) \<or>
         (LevelEnabler log lvl \<and>
          fac_Enabled (Facility log) \<lparr>Level = lvl, Time = clock w (ticks w), Message = msg\<rparr>)
      then Some \<lparr>Level = lvl, Time = clock w (ticks w), Message = msg, fac = Some (Facility log)\<rparr>
      else None)"
    by (simp add: Check_def time_Now_def Let_def exported_def)
  have st: "snd (Check log lvl msg w) = w\<lparr>ticks := Suc (ticks w)\<rparr>"
    by (simp add: Check_def time_Now_def Let_def)
  from tok have iff: "(fst (Check log lvl msg w) \<noteq> None) =
     (lvl = PanicLevel \<or> lvl = FatalLevel \<or> (lvl = DPanicLevel \<and> Development log) \<or>
      (LevelEnabler log lvl \<and>
       fac_Enabled (Facility log) \<lparr>Level = lvl, Time = clock w (ticks w), Message = msg\<rparr>))"
    by (simp split: if_splits)
  from tok iff st show ?thesis by (intro conjI)
qed

theorem Check_token_iff_witness:
  "fst (Check (spy_logger WarnLevel False []) InfoLevel ''x'' world0) = None \<and>
   fst (Check (spy_logger WarnLevel False []) ErrorLevel ''y'' world0) =
     Some \<lparr>Level = ErrorLevel, Time = ''t0'', Message = ''y'',
           fac = Some (Facility (spy_logger WarnLevel False []))\<rparr> \<and>
   fst (Check (spy_logger FatalLevel False []) DPanicLevel ''d'' world0) = None \<and>
   fst (Check (spy_logger FatalLevel True []) DPanicLevel ''d'' world0) =
     Some \<lparr>Level = DPanicLevel, Time = ''t0'', Message = ''d'',
           fac = Some (Facility (spy_logger FatalLevel True []))\<rparr>"
  using Check_token_iff [of "spy_logger WarnLevel False []" InfoLevel "''x''" world0]
    Check_token_iff [of "spy_logger WarnLevel False []" ErrorLevel "''y''" world0]
    Check_token_iff [of "spy_logger FatalLevel False []" DPanicLevel "''d''" world0]
    Check_token_iff [of "spy_logger FatalLevel True []" DPanicLevel "''d''" world0]
  by (simp add: spy_logger_def world0_def Level_Enabled_def spyFacility_Enabled_def)

text \<open>
  C6 as the spec states it fails, since that is not when a logging call delivers: with
  the threshold Fatal, Check returns a bound entry for Panic, and the logging call at
  Panic leaves the state as it was but for the reading of the clock.
\<close>

theorem Check_token_without_delivery_counterexample:
  "fst (Check (spy_logger FatalLevel False []) PanicLevel ''boom'' world0) =
     Some \<lparr>Level = PanicLevel, Time = ''t0'', Message = ''boom'',
           fac = Some (Facility (spy_logger FatalLevel False []))\<rparr> \<and>
   Logger_log (spy_logger FatalLevel False []) PanicLevel ''boom'' [] world0 = world0\<lparr>ticks := 1\<rparr>"
  by (simp add: Check_def Logger_log_def Logger_Log_def time_Now_def
      spy_logger_def Level_Enabled_def world0_def)

text \<open>
  C7. The writer facility drops the error of WriteEntry: with an encoder whose
  WriteEntry fails, the logging call returns normally and the error output receives
  nothing.
\<close>

theorem encoder_error_not_reported:
  "fst (Encoder_WriteEntry enc_failing 1 ''z'' InfoLevel ''t0'' (world0\<lparr>ticks := 1\<rparr>)) =
     Some ''disk full'' \<and>
   Logger_Info (io_logger enc_failing) ''z'' [] world0 = (Returns, world0\<lparr>ticks := 1\<rparr>) \<and>
   writers (snd (Logger_Info (io_logger enc_failing) ''z'' [] world0)) 2 = []"
  by (simp add: Logger_Info_def Logger_log_def Logger_Log_def time_Now_def io_logger_def
      enc_failing_def Level_Enabled_def ioFacility_Enabled_def ioFacility_Log_eq
      Encoder_WriteEntry_def exported_def world0_def)



end
